theory Spec2Isabelle
  imports Main "HOL-Library.Sublist" "HOL-Library.AList"
begin

section \<open>Python strings\<close>

text \<open>
  A Python \<open>str\<close> is modelled as a \<open>string\<close>; a \<open>char\<close> is read as a code point
  below 256. On that range \<open>str.isspace\<close>, and the class \<open>\s\<close> of the \<open>re\<close> module on
  \<open>str\<close> patterns, hold exactly for the code points 9 to 13, 28 to 32, 133 and 160;
  \<open>\d\<close> holds for the ten ASCII digits only, and case-insensitive matching of an ASCII
  letter accepts its two ASCII cases only.
\<close>

definition is_space :: "char \<Rightarrow> bool" where
  "is_space c =
     (let n = (of_char c :: nat)
      in (9 \<le> n \<and> n \<le> 13) \<or> (28 \<le> n \<and> n \<le> 32) \<or> n = 133 \<or> n = 160)"

definition is_digit :: "char \<Rightarrow> bool" where
  "is_digit c = (let n = (of_char c :: nat) in 48 \<le> n \<and> n \<le> 57)"

definition is_upper :: "char \<Rightarrow> bool" where
  "is_upper c = (let n = (of_char c :: nat) in 65 \<le> n \<and> n \<le> 90)"

definition is_lower :: "char \<Rightarrow> bool" where
  "is_lower c = (let n = (of_char c :: nat) in 97 \<le> n \<and> n \<le> 122)"

definition lower_char :: "char \<Rightarrow> char" where
  "lower_char c = (if is_upper c then char_of ((of_char c :: nat) + 32) else c)"

text \<open>\<open>s.startswith(p)\<close> and \<open>p in s\<close>.\<close>

definition startswith :: "string \<Rightarrow> string \<Rightarrow> bool" where
  "startswith s p = prefix p s"

fun contains :: "string \<Rightarrow> string \<Rightarrow> bool" where
  "contains p [] = (p = [])"
| "contains p (c # cs) = (prefix p (c # cs) \<or> contains p cs)"

text \<open>Case-insensitive \<open>startswith\<close> and search, for a lower-case pattern \<open>p\<close>.\<close>

definition startswith_ci :: "string \<Rightarrow> string \<Rightarrow> bool" where
  "startswith_ci s p = prefix p (map lower_char s)"

definition contains_ci :: "string \<Rightarrow> string \<Rightarrow> bool" where
  "contains_ci p s = contains p (map lower_char s)"

text \<open>\<open>s.strip(chars)\<close> for a set of characters, and \<open>s.strip()\<close> for whitespace.\<close>

definition strip_chars :: "(char \<Rightarrow> bool) \<Rightarrow> string \<Rightarrow> string" where
  "strip_chars P s = rev (dropWhile P (rev (dropWhile P s)))"

definition strip :: "string \<Rightarrow> string" where
  "strip s = strip_chars is_space s"

text \<open>\<open>s.split(c)[-1]\<close>: what follows the last occurrence of \<open>c\<close> (all of \<open>s\<close> without one).\<close>

definition last_segment :: "char \<Rightarrow> string \<Rightarrow> string" where
  "last_segment c s = rev (takeWhile (\<lambda>x. x \<noteq> c) (rev s))"

text \<open>\<open>s.replace(p, r)\<close> for a non-empty \<open>p\<close>: every occurrence, left to right.\<close>

fun replace :: "string \<Rightarrow> string \<Rightarrow> string \<Rightarrow> string" where
  "replace p r [] = []"
| "replace p r (c # cs) =
     (if p \<noteq> [] \<and> prefix p (c # cs) then r @ replace p r (drop (length p - 1) cs)
      else c # replace p r cs)"

text \<open>\<open>str(n)\<close> for a natural number.\<close>

function str_of_nat :: "nat \<Rightarrow> string" where
  "str_of_nat n =
     (if n < 10 then [char_of (48 + n)]
      else str_of_nat (n div 10) @ [char_of (48 + n mod 10)])"
  by pat_completeness auto
termination
  by (relation "measure id") auto

declare str_of_nat.simps [simp del]

text \<open>\<open>re.sub(r'\s+', ' ', s)\<close>: every maximal run of whitespace becomes one space.\<close>

function collapse_ws :: "string \<Rightarrow> string" where
  "collapse_ws [] = []"
| "collapse_ws (c # cs) =
     (if is_space c then CHR '' '' # collapse_ws (dropWhile is_space cs)
      else c # collapse_ws cs)"
  by pat_completeness auto
termination
  by (relation "measure length") (auto simp: length_dropWhile_le le_imp_less_Suc)

section \<open>Reference extractor\<close>

text \<open>
  \<open>re.findall(pattern, text)\<close> for a pattern without groups, anchors or look-behind that
  never matches the empty string: the scan tries the pattern at the current position; a
  match of length \<open>n\<close> is recorded and the scan resumes behind it, otherwise it advances
  by one character. The pattern is given as the function that returns the length of its
  match at the start of a string.
\<close>

fun findall :: "(string \<Rightarrow> nat option) \<Rightarrow> string \<Rightarrow> string list" where
  "findall m [] = []"
| "findall m (c # cs) =
     (case m (c # cs) of
        None \<Rightarrow> findall m cs
      | Some n \<Rightarrow> take n (c # cs) # findall m (drop (n - 1) cs))"

text \<open>A literal prefix of length \<open>k\<close> followed by \<open>[^\s]+\<close> (greedy, at least one).\<close>

definition then_nonspace :: "nat \<Rightarrow> string \<Rightarrow> nat option" where
  "then_nonspace k s =
     (let n = length (takeWhile (\<lambda>c. \<not> is_space c) (drop k s))
      in if 1 \<le> n then Some (k + n) else None)"

text \<open>\<open>https?://[^\s]+\<close>\<close>

definition match_http :: "string \<Rightarrow> nat option" where
  "match_http s =
     (if prefix ''https://'' s then then_nonspace 8 s
      else if prefix ''http://'' s then then_nonspace 7 s
      else None)"

text \<open>\<open>www\.[^\s]+\<close>\<close>

definition match_www :: "string \<Rightarrow> nat option" where
  "match_www s = (if prefix ''www.'' s then then_nonspace 4 s else None)"

text \<open>\<open>doi\.org/[^\s]+\<close>\<close>

definition match_doi_link :: "string \<Rightarrow> nat option" where
  "match_doi_link s = (if prefix ''doi.org/'' s then then_nonspace 8 s else None)"

text \<open>The class \<open>[-._;()/:A-Za-z0-9]\<close>.\<close>

definition doi_char :: "char \<Rightarrow> bool" where
  "doi_char c = (c \<in> set ''-._;()/:'' \<or> is_upper c \<or> is_lower c \<or> is_digit c)"

text \<open>
  \<open>10\.\d{4,9}/[-._;()/:A-Za-z0-9]+\<close>. The greedy \<open>\d{4,9}\<close> is followed by a slash, which
  is no digit, so backtracking cannot help: the run of digits behind \<open>10.\<close> has to be 4 to
  9 long and end at the slash.
\<close>

definition match_doi :: "string \<Rightarrow> nat option" where
  "match_doi s =
     (if prefix ''10.'' s then
        (let r = drop 3 s;
             d = length (takeWhile is_digit r);
             r' = drop d r
         in if 4 \<le> d \<and> d \<le> 9 \<and> prefix ''/'' r' then
              (let n = length (takeWhile doi_char (drop 1 r'))
               in if 1 \<le> n then Some (3 + d + 1 + n) else None)
            else None)
      else None)"

text \<open>\<open>arXiv:\d{4}\.\d{4,5}\<close>\<close>

definition match_arxiv :: "string \<Rightarrow> nat option" where
  "match_arxiv s =
     (if prefix ''arXiv:'' s then
        (let r = drop 6 s
         in if 4 \<le> length (takeWhile is_digit (take 4 r)) \<and> prefix ''.'' (drop 4 r) then
              (let n = length (takeWhile is_digit (take 5 (drop 5 r)))
               in if 4 \<le> n then Some (6 + 4 + 1 + n) else None)
            else None)
      else None)"

text \<open>
  \<open>list(set(xs))\<close>: the elements of \<open>xs\<close>, each once. Python leaves the order of the list
  open; the model keeps the order of last occurrence.
\<close>

definition list_set :: "string list \<Rightarrow> string list" where
  "list_set xs = remdups xs"

definition link_strip :: "string \<Rightarrow> string" where
  "link_strip l = strip_chars (\<lambda>c. c \<in> set '',.()[]'') l"

definition extract_links_and_dois :: "string \<Rightarrow> string list \<times> string list \<times> string list" where
  "extract_links_and_dois text =
     (let links = findall match_http text @ findall match_www text @ findall match_doi_link text;
          dois = findall match_doi text;
          arxiv_ids = findall match_arxiv text
      in (list_set (map link_strip links), list_set dois, list_set arxiv_ids))"

section \<open>External collaborators\<close>

text \<open>
  The document tree that the HTML parser returns: text nodes and elements with a name,
  a dictionary of attributes (each name once) and children.
\<close>

datatype node = TextNode string | Element string "(string \<times> string) list" "node list"

text \<open>\<open>tag.text\<close>: the text nodes below the tag, concatenated in document order.\<close>

fun node_text :: "node \<Rightarrow> string" where
  "node_text (TextNode s) = s"
| "node_text (Element n a cs) = concat (map node_text cs)"

text \<open>\<open>tag.get(key, default)\<close>\<close>

fun tag_get :: "node \<Rightarrow> string \<Rightarrow> string \<Rightarrow> string" where
  "tag_get (TextNode s) k d = d"
| "tag_get (Element n a cs) k d = (case map_of a k of Some v \<Rightarrow> v | None \<Rightarrow> d)"

text \<open>
  \<open>soup.find(...)\<close>: the first element, in document order, whose name and attributes
  satisfy the filter.
\<close>

fun find_in :: "(string \<Rightarrow> (string \<times> string) list \<Rightarrow> bool) \<Rightarrow> node list \<Rightarrow> node option" where
  "find_in P [] = None"
| "find_in P (TextNode s # ns) = find_in P ns"
| "find_in P (Element n a cs # ns) =
     (if P n a then Some (Element n a cs)
      else case find_in P cs of Some t \<Rightarrow> Some t | None \<Rightarrow> find_in P ns)"

text \<open>The values of a \<open>class\<close> attribute: its maximal runs of non-whitespace.\<close>

function split_ws :: "string \<Rightarrow> string list" where
  "split_ws s =
     (case dropWhile is_space s of
        [] \<Rightarrow> []
      | c # cs \<Rightarrow> (c # takeWhile (\<lambda>x. \<not> is_space x) cs)
                 # split_ws (dropWhile (\<lambda>x. \<not> is_space x) cs))"
  by pat_completeness auto
termination
proof (relation "measure length", goal_cases)
  case 1
  show ?case by simp
next
  case (2 s c cs)
  have "length (dropWhile (\<lambda>x. \<not> is_space x) cs) \<le> length cs"
    by (rule length_dropWhile_le)
  moreover have "length (c # cs) \<le> length s"
    using length_dropWhile_le [of is_space s] 2 by simp
  ultimately show ?case by simp
qed

definition class_values :: "(string \<times> string) list \<Rightarrow> string list" where
  "class_values a = (case map_of a ''class'' of None \<Rightarrow> [] | Some v \<Rightarrow> split_ws v)"

text \<open>\<open>class_='title'\<close>: one of the class values is the string.\<close>

definition has_class :: "string \<Rightarrow> (string \<times> string) list \<Rightarrow> bool" where
  "has_class c a = (c \<in> set (class_values a))"

text \<open>
  \<open>class_=re.compile('abstract|description', re.IGNORECASE)\<close>: the pattern is searched in
  each class value (and in the values joined by spaces, which finds nothing more, the
  pattern having no space).
\<close>

definition abstract_class :: "(string \<times> string) list \<Rightarrow> bool" where
  "abstract_class a =
     list_ex (\<lambda>v. contains_ci ''abstract'' v \<or> contains_ci ''description'' v) (class_values a)"

text \<open>
  \<open>requests.get\<close> either raises or returns a response with a status code and a body.
\<close>

datatype http_result = RequestError | Response int string

text \<open>
  A JSON object of a bibliographic result, as a dictionary of its fields that hold
  strings (an \<open>abstract\<close> that is \<open>null\<close> or missing is no entry).
\<close>

type_synonym paper = "(string \<times> string) list"

datatype write_result = Written | PermissionError string | IOError string | OtherError string

datatype file_content = PdfDoc "string list" | HtmlDoc string

text \<open>
  The world outside the program, as functions of the request:
  \<^item> \<open>http_get h url\<close>: \<open>requests.get(url, timeout=10)\<close>, with the browser headers when
    \<open>h\<close> holds;
  \<^item> \<open>parse_html body\<close>: \<open>BeautifulSoup(body, 'html.parser')\<close>, \<open>None\<close> when it raises;
  \<^item> \<open>url_quote\<close>: \<open>requests.utils.quote\<close>;
  \<^item> \<open>crossref_json body\<close>: \<open>response.json().get('message', {}).get('items', [])\<close>,
    \<open>None\<close> when decoding or access raises; \<open>semantic_json body\<close>:
    \<open>response.json().get('data', [])\<close> likewise;
  \<^item> \<open>read_pdf path\<close>: the text of each page of the PDF, \<open>None\<close> when opening, reading
    or text extraction raises;
  \<^item> \<open>write_file path content\<close>: what rendering and writing an output file does.

  The same request gets the same answer throughout a run. Logging and the pause of half a
  second before each reference do not enter what is computed and are left out.
\<close>

record env =
  http_get :: "bool \<Rightarrow> string \<Rightarrow> http_result"
  parse_html :: "string \<Rightarrow> node list option"
  url_quote :: "string \<Rightarrow> string"
  crossref_json :: "string \<Rightarrow> paper list option"
  semantic_json :: "string \<Rightarrow> paper list option"
  read_pdf :: "string \<Rightarrow> string list option"
  write_file :: "string \<Rightarrow> file_content \<Rightarrow> write_result"

section \<open>Resolution stages\<close>

definition extract_text_from_pdf :: "env \<Rightarrow> string \<Rightarrow> string" where
  "extract_text_from_pdf e path =
     (case read_pdf e path of None \<Rightarrow> [] | Some pages \<Rightarrow> concat pages)"

text \<open>\<open>works[0].get('abstract')\<close> when \<open>works\<close> is non-empty and the field is truthy.\<close>

definition first_abstract :: "paper list \<Rightarrow> string option" where
  "first_abstract works =
     (case works of
        [] \<Rightarrow> None
      | w # _ \<Rightarrow> (case map_of w ''abstract'' of
                    None \<Rightarrow> None
                  | Some a \<Rightarrow> if a \<noteq> [] then Some a else None))"

text \<open>
  One API of \<open>extract_abstract_alternative\<close>: \<open>None\<close> when the request or the decoding
  raises, \<open>Some None\<close> when the API has no abstract, \<open>Some (Some a)\<close> when it has.
\<close>

definition api_lookup ::
  "env \<Rightarrow> (string \<Rightarrow> paper list option) \<Rightarrow> string \<Rightarrow> string option option" where
  "api_lookup e decode url =
     (case http_get e False url of
        RequestError \<Rightarrow> None
      | Response st body \<Rightarrow>
          if st = 200 then map_option first_abstract (decode body) else Some None)"

definition extract_abstract_alternative :: "env \<Rightarrow> string \<Rightarrow> string" where
  "extract_abstract_alternative e title =
     (case api_lookup e (crossref_json e)
             (''https://api.crossref.org/works?query='' @ url_quote e title @ ''&rows=1'') of
        None \<Rightarrow> ''Abstract extraction failed''
      | Some (Some a) \<Rightarrow> a
      | Some None \<Rightarrow>
          (case api_lookup e (semantic_json e)
                  (''https://api.semanticscholar.org/graph/v1/paper/search?query=''
                     @ url_quote e title @ ''&fields=abstract'') of
             None \<Rightarrow> ''Abstract extraction failed''
           | Some (Some a) \<Rightarrow> a
           | Some None \<Rightarrow> ''Abstract not found through APIs''))"

text \<open>
  The loop over \<open>abstract_candidates\<close>: the first candidate that was found and whose
  \<open>content\<close> attribute (its text without one) is longer than 50 characters.
\<close>

fun first_candidate :: "node option list \<Rightarrow> string" where
  "first_candidate [] = ''Abstract not found''"
| "first_candidate (None # cs) = first_candidate cs"
| "first_candidate (Some t # cs) =
     (let abstract = tag_get t ''content'' (node_text t)
      in if abstract \<noteq> [] \<and> length abstract > 50 then strip abstract
         else first_candidate cs)"

definition abstract_candidates :: "node list \<Rightarrow> node option list" where
  "abstract_candidates soup =
     [find_in (\<lambda>n a. n = ''meta'' \<and> map_of a ''name'' = Some ''description'') soup,
      find_in (\<lambda>n a. n = ''div'' \<and> abstract_class a) soup,
      find_in (\<lambda>n a. n = ''p'' \<and> abstract_class a) soup]"

definition extract_abstract_from_url :: "env \<Rightarrow> string \<Rightarrow> string" where
  "extract_abstract_from_url e url =
     (case http_get e True url of
        RequestError \<Rightarrow> ''Abstract extraction failed''
      | Response st body \<Rightarrow>
          if st \<noteq> 200 then ''Abstract not available''
          else (case parse_html e body of
                  None \<Rightarrow> ''Abstract extraction failed''
                | Some soup \<Rightarrow> first_candidate (abstract_candidates soup)))"

definition arxiv_failed :: "string \<times> string" where
  "arxiv_failed = (''Title retrieval error'', ''Abstract retrieval error'')"

text \<open>\<open>response.raise_for_status()\<close> raises for the status codes 400 to 599.\<close>

definition extract_abstract_from_arxiv :: "env \<Rightarrow> string \<Rightarrow> string \<times> string" where
  "extract_abstract_from_arxiv e url =
     (case http_get e False url of
        RequestError \<Rightarrow> arxiv_failed
      | Response st body \<Rightarrow>
          if 400 \<le> st \<and> st < 600 then arxiv_failed
          else (case parse_html e body of
                  None \<Rightarrow> arxiv_failed
                | Some soup \<Rightarrow>
                    (let title_text =
                           (case find_in (\<lambda>n a. n = ''h1'' \<and> has_class ''title'' a) soup of
                              Some t \<Rightarrow> strip (replace ''Title:'' [] (node_text t))
                            | None \<Rightarrow> ''Title not available'');
                         abstract_text =
                           (case find_in (\<lambda>n a. n = ''blockquote'' \<and> has_class ''abstract'' a) soup of
                              Some t \<Rightarrow> strip (replace ''Abstract:'' [] (node_text t))
                            | None \<Rightarrow> ''Abstract not available'')
                     in (title_text, abstract_text))))"

definition extract_title_from_url :: "env \<Rightarrow> string \<Rightarrow> string" where
  "extract_title_from_url e url =
     (if contains ''arxiv.org'' url then
        (let arxiv_id = last_segment CHR ''/'' url;
             title = fst (extract_abstract_from_arxiv e url)
         in if title \<noteq> ''Title not available'' then title
            else ''ArXiv Paper ID: '' @ arxiv_id)
      else if contains ''doi.org'' url then
        (let title = extract_abstract_alternative e url
         in if title \<noteq> ''Abstract extraction failed'' then title
            else ''DOI Reference: '' @ last_segment CHR ''/'' url)
      else
        (case http_get e True url of
           RequestError \<Rightarrow> ''Unknown Title''
         | Response st body \<Rightarrow>
             if st = 200 then
               (case parse_html e body of
                  None \<Rightarrow> ''Unknown Title''
                | Some soup \<Rightarrow>
                    (case find_in (\<lambda>n a. n = ''title'') soup of
                       None \<Rightarrow> last_segment CHR ''/'' url
                     | Some t \<Rightarrow>
                         if strip (node_text t) \<noteq> [] then strip (node_text t)
                         else last_segment CHR ''/'' url))
             else last_segment CHR ''/'' url))"

subsection \<open>The in-document heuristic\<close>

text \<open>What follows the first occurrence of the lower-case \<open>p\<close> in \<open>s\<close>, cases ignored.\<close>

fun after_ci :: "string \<Rightarrow> string \<Rightarrow> string option" where
  "after_ci p [] = (if p = [] then Some [] else None)"
| "after_ci p (c # cs) =
     (if startswith_ci (c # cs) p then Some (drop (length p) (c # cs)) else after_ci p cs)"

text \<open>
  The group of the first match of \<open>Abstract[:.]?\s*(.+?)(?=\n\n|\n[A-Z]|$)\<close> under
  \<open>IGNORECASE | MULTILINE | DOTALL\<close>. With \<open>MULTILINE\<close> the \<open>$\<close> of the look-ahead holds
  at the end of the text and before every newline, so the look-ahead holds exactly there.
  The lazy group takes one character and then runs to the first such place. It needs a
  character: when only whitespace follows the label, \<open>\s*\<close> gives its last character
  back to the group; when a lone \<open>:\<close> or \<open>.\<close> ends the text, \<open>[:.]?\<close> gives it back;
  when the label ends the text, nothing matches.
\<close>

definition abstract_label_match :: "string \<Rightarrow> string option" where
  "abstract_label_match text =
     (case after_ci ''abstract'' text of
        None \<Rightarrow> None
      | Some rest \<Rightarrow>
          (let r1 = (case rest of
                       [] \<Rightarrow> []
                     | c # cs \<Rightarrow> if c = CHR '':'' \<or> c = CHR ''.'' then cs else rest);
               r2 = dropWhile is_space r1
           in case r2 of
                c # cs \<Rightarrow> Some (c # takeWhile (\<lambda>x. x \<noteq> CHR 0x0A) cs)
              | [] \<Rightarrow> if r1 \<noteq> [] then Some [last r1]
                      else if rest \<noteq> [] then Some rest
                      else None))"

text \<open>
  The first match of \<open>((?:(?!Introduction|References)[\s\S]){50,500})\<close>, cases ignored:
  a position can be taken when a character is there and neither word starts at it; the
  match starts at the first position from which 50 positions in a row can be taken, and
  takes up to 500.
\<close>

definition block_allowed :: "string \<Rightarrow> bool" where
  "block_allowed s =
     (s \<noteq> [] \<and> \<not> startswith_ci s ''introduction'' \<and> \<not> startswith_ci s ''references'')"

fun block_run :: "nat \<Rightarrow> string \<Rightarrow> nat" where
  "block_run 0 s = 0"
| "block_run (Suc k) s = (if block_allowed s then Suc (block_run k (tl s)) else 0)"

fun first_block :: "string \<Rightarrow> string option" where
  "first_block [] = None"
| "first_block (c # cs) =
     (let n = block_run 500 (c # cs)
      in if 50 \<le> n then Some (take n (c # cs)) else first_block cs)"

text \<open>The body of the loop over the two patterns, for the first match of one.\<close>

definition cleaned_candidate :: "string option \<Rightarrow> string option" where
  "cleaned_candidate m =
     (case m of
        None \<Rightarrow> None
      | Some g \<Rightarrow> (let abstract = strip (collapse_ws g)
                   in if length abstract > 50 then Some abstract else None))"

definition extract_abstract_from_text :: "string \<Rightarrow> string" where
  "extract_abstract_from_text text =
     (case cleaned_candidate (abstract_label_match text) of
        Some a \<Rightarrow> a
      | None \<Rightarrow> (case cleaned_candidate (first_block text) of
                   Some a \<Rightarrow> a
                 | None \<Rightarrow> ''No abstract found in text''))"

section \<open>Processing the references\<close>

text \<open>
  A metadata record is the dictionary \<open>{'title': ..., 'abstract': ...}\<close>; the metadata
  mapping is a dictionary in insertion order, keyed by the reference.
\<close>

type_synonym info = "(string \<times> string) list"

type_synonym metadata = "(string \<times> info) list"

text \<open>
  \<open>title\<close> and \<open>abstract\<close> are local variables of \<open>process_links_and_dois\<close>, not of the
  loop body: they keep their values from one reference to the next, and are unbound
  (\<open>None\<close>) until first assigned. Reading an unbound local raises.
\<close>

record locals =
  l_title :: "string option"
  l_abstract :: "string option"

datatype py_exception = UnboundLocalError

definition dispatch :: "env \<Rightarrow> string \<Rightarrow> locals \<Rightarrow> locals" where
  "dispatch e source l =
     (if startswith source ''arXiv:'' then
        (let arxiv_id = last_segment CHR '':'' source;
             r = extract_abstract_from_arxiv e (''https://arxiv.org/abs/'' @ arxiv_id)
         in l\<lparr>l_title := Some (fst r), l_abstract := Some (snd r)\<rparr>)
      else if contains ''arxiv.org'' source then
        (let r = extract_abstract_from_arxiv e source
         in l\<lparr>l_title := Some (fst r), l_abstract := Some (snd r)\<rparr>)
      else if startswith source ''http'' \<or> startswith source ''doi.org''
              \<or> startswith source ''www.'' then
        (let l' = l\<lparr>l_abstract := Some (extract_abstract_from_url e source)\<rparr>
         in l'\<lparr>l_title := Some (extract_title_from_url e source)\<rparr>)
      else l)"

text \<open>
  The \<open>try\<close> block for one reference: the locals behind it, and the record it stores or
  the exception it raises.
\<close>

definition try_source :: "env \<Rightarrow> string \<Rightarrow> string \<Rightarrow> locals \<Rightarrow> locals \<times> (py_exception + info)" where
  "try_source e text source l =
     (let l1 = dispatch e source l
      in case l_abstract l1 of
           None \<Rightarrow> (l1, Inl UnboundLocalError)
         | Some a1 \<Rightarrow>
             (let l2 = (if a1 = [] then
                          (let t = extract_title_from_url e source
                           in l1\<lparr>l_title := Some t,
                                 l_abstract := Some (extract_abstract_alternative e t)\<rparr>)
                        else l1)
              in case l_abstract l2 of
                   None \<Rightarrow> (l2, Inl UnboundLocalError)
                 | Some a2 \<Rightarrow>
                     (let l3 = (if a2 = [] then
                                  l2\<lparr>l_abstract := Some (extract_abstract_from_text text)\<rparr>
                                else l2)
                      in case l_title l3 of
                           None \<Rightarrow> (l3, Inl UnboundLocalError)
                         | Some t \<Rightarrow>
                             (case l_abstract l3 of
                                None \<Rightarrow> (l3, Inl UnboundLocalError)
                              | Some a3 \<Rightarrow> (l3, Inr [(''title'', t), (''abstract'', a3)])))))"

definition failed_info :: info where
  "failed_info = [(''abstract'', ''Failed to get Abstract''), (''title'', ''Unknown Title'')]"

definition process_source :: "env \<Rightarrow> string \<Rightarrow> locals \<times> metadata \<Rightarrow> string \<Rightarrow> locals \<times> metadata" where
  "process_source e text st source =
     (case try_source e text source (fst st) of
        (l, Inr i) \<Rightarrow> (l, AList.update source i (snd st))
      | (l, Inl x) \<Rightarrow> (l, AList.update source failed_info (snd st)))"

definition unbound :: locals where
  "unbound = \<lparr>l_title = None, l_abstract = None\<rparr>"

definition process_links_and_dois ::
  "env \<Rightarrow> string \<Rightarrow> string list \<Rightarrow> string list \<Rightarrow> string list \<Rightarrow> metadata \<Rightarrow> metadata" where
  "process_links_and_dois e text links dois arxiv_ids md =
     snd (foldl (process_source e text) (unbound, md) (links @ dois @ arxiv_ids))"

section \<open>Reports\<close>

text \<open>\<open>info.get('abstract', 'No abstract available')\<close>\<close>

definition info_abstract :: "info \<Rightarrow> string" where
  "info_abstract i = (case map_of i ''abstract'' of Some a \<Rightarrow> a | None \<Rightarrow> ''No abstract available'')"

definition truncated_source :: "string \<Rightarrow> string" where
  "truncated_source source = (if length source > 100 then take 100 source @ ''...'' else source)"

definition pdf_source_cell :: "nat \<Rightarrow> string \<Rightarrow> string" where
  "pdf_source_cell idx source = str_of_nat idx @ ''. Source: '' @ truncated_source source"

definition pdf_abstract_cell :: "info \<Rightarrow> string" where
  "pdf_abstract_cell i = ''Abstract: '' @ take 500 (info_abstract i) @ ''...''"

text \<open>\<open>enumerate(self.metadata.items(), start=k)\<close>\<close>

fun enumerate_from :: "nat \<Rightarrow> 'a list \<Rightarrow> (nat \<times> 'a) list" where
  "enumerate_from k [] = []"
| "enumerate_from k (x # xs) = (k, x) # enumerate_from (Suc k) xs"

definition pdf_cells :: "metadata \<Rightarrow> string list" where
  "pdf_cells md =
     ''Extracted Links, Titles, and Abstracts''
     # concat (map (\<lambda>(idx, source, i). [pdf_source_cell idx source, pdf_abstract_cell i])
                 (enumerate_from 1 md))"

text \<open>The state of a run: the metadata mapping, what was printed, the files written.\<close>

record run =
  metadata :: metadata
  printed :: "string list"
  files :: "(string \<times> file_content) list"

definition say :: "string \<Rightarrow> run \<Rightarrow> run" where
  "say msg r = r\<lparr>printed := printed r @ [msg]\<rparr>"

definition create_output_pdf :: "env \<Rightarrow> string \<Rightarrow> run \<Rightarrow> run" where
  "create_output_pdf e output_pdf_path r =
     (if metadata r = [] then say ''No links or abstracts found to generate PDF.'' r
      else (case write_file e output_pdf_path (PdfDoc (pdf_cells (metadata r))) of
              Written \<Rightarrow>
                say (''PDF successfully generated at '' @ output_pdf_path)
                  (r\<lparr>files := files r @ [(output_pdf_path, PdfDoc (pdf_cells (metadata r)))]\<rparr>)
            | PermissionError msg \<Rightarrow>
                say (''Error: Cannot write to '' @ output_pdf_path @ ''. Check file permissions.'') r
            | IOError msg \<Rightarrow> say (''IO Error: '' @ msg) r
            | OtherError msg \<Rightarrow> say (''Unexpected error: '' @ msg) r))"

definition html_header :: string where
  \<open>html_header =
     ''\<newline>''
     @ ''            <!DOCTYPE html>\<newline>''
     @ ''            <html lang="en">\<newline>''
     @ ''            <head>\<newline>''
     @ ''                <meta charset="UTF-8">\<newline>''
     @ ''                <meta name="viewport" content="width=device-width, initial-scale=1.0">\<newline>''
     @ ''                <title>Extracted Research Papers</title>\<newline>''
     @ ''                <style>\<newline>''
     @ ''                    body { font-family: Arial, sans-serif; margin: 20px; }\<newline>''
     @ ''                    table { width: 100%; border-collapse: collapse; margin-top: 20px; }\<newline>''
     @ ''                    th, td { border: 1px solid #ddd; padding: 8px; text-align: left; }\<newline>''
     @ ''                    th { background-color: #f4f4f4; }\<newline>''
     @ ''                    tr:nth-child(even) { background-color: #f9f9f9; }\<newline>''
     @ ''                    tr:hover { background-color: #f1f1f1; }\<newline>''
     @ ''                    a { color: #007BFF; text-decoration: none; }\<newline>''
     @ ''                    a:hover { text-decoration: underline; }\<newline>''
     @ ''                </style>\<newline>''
     @ ''            </head>\<newline>''
     @ ''            <body>\<newline>''
     @ ''                <h1>Extracted Research Papers</h1>\<newline>''
     @ ''                <table>\<newline>''
     @ ''                    <thead>\<newline>''
     @ ''                        <tr>\<newline>''
     @ ''                            <th>Index</th>\<newline>''
     @ ''                            <th>Name of the Paper</th>\<newline>''
     @ ''                            <th>Abstract</th>\<newline>''
     @ ''                            <th>Link</th>\<newline>''
     @ ''                        </tr>\<newline>''
     @ ''                    </thead>\<newline>''
     @ ''                    <tbody>\<newline>''
     @ ''            ''\<close>

definition html_footer :: string where
  \<open>html_footer =
     ''\<newline>''
     @ ''                    </tbody>\<newline>''
     @ ''                </table>\<newline>''
     @ ''            </body>\<newline>''
     @ ''            </html>\<newline>''
     @ ''            ''\<close>

definition html_link :: "string \<Rightarrow> string" where
  "html_link source = ''<a href='' @ [CHR 0x27] @ source @ [CHR 0x27] @ '' target='' @ [CHR 0x27]
     @ ''_blank'' @ [CHR 0x27] @ ''>'' @ source @ ''</a>''"

text \<open>The four cells of a table row: index, name, abstract, link.\<close>

definition html_cells :: "env \<Rightarrow> nat \<Rightarrow> string \<Rightarrow> info \<Rightarrow> string list" where
  "html_cells e idx source i =
     [str_of_nat idx,
      extract_title_from_url e source,
      take 500 (info_abstract i) @ ''...'',
      html_link source]"

definition html_row :: "env \<Rightarrow> nat \<Rightarrow> string \<Rightarrow> info \<Rightarrow> string" where
  "html_row e idx source i =
     ''\<newline>                    <tr>\<newline>''
     @ concat (map (\<lambda>c. ''                        <td>'' @ c @ ''</td>\<newline>'')
                 (html_cells e idx source i))
     @ ''                    </tr>\<newline>                ''"

definition html_content :: "env \<Rightarrow> metadata \<Rightarrow> string" where
  "html_content e md =
     html_header
     @ concat (map (\<lambda>(idx, source, i). html_row e idx source i) (enumerate_from 1 md))
     @ html_footer"

definition create_output_html :: "env \<Rightarrow> string \<Rightarrow> run \<Rightarrow> run" where
  "create_output_html e html_output_path r =
     (if metadata r = [] then say ''No metadata found to generate HTML.'' r
      else (case write_file e html_output_path (HtmlDoc (html_content e (metadata r))) of
              Written \<Rightarrow>
                say (''HTML successfully generated at '' @ html_output_path)
                  (r\<lparr>files := files r @ [(html_output_path, HtmlDoc (html_content e (metadata r)))]\<rparr>)
            | PermissionError msg \<Rightarrow> say (''Unexpected error: '' @ msg) r
            | IOError msg \<Rightarrow> say (''Unexpected error: '' @ msg) r
            | OtherError msg \<Rightarrow> say (''Unexpected error: '' @ msg) r))"

section \<open>Workflow\<close>

definition init :: run where
  "init = \<lparr>metadata = [], printed = [], files = []\<rparr>"

definition workflow :: "env \<Rightarrow> string \<Rightarrow> string \<Rightarrow> run" where
  "workflow e input_pdf_path output_pdf_path =
     (let text = extract_text_from_pdf e input_pdf_path;
          (links, dois, arxiv_ids) = extract_links_and_dois text;
          r1 = init\<lparr>metadata := process_links_and_dois e text links dois arxiv_ids (metadata init)\<rparr>;
          r2 = create_output_pdf e output_pdf_path r1;
          html_output_path = replace ''.pdf'' ''.html'' output_pdf_path;
          r3 = create_output_html e html_output_path r2
      in say (''Extraction complete. Outputs saved to PDF: '' @ output_pdf_path
              @ '' and HTML: '' @ html_output_path) r3)"

section \<open>Example environments\<close>

text \<open>No network, no readable input file: every request raises.\<close>

definition offline :: env where
  "offline =
     \<lparr>http_get = (\<lambda>h u. RequestError),
      parse_html = (\<lambda>b. None),
      url_quote = (\<lambda>s. s),
      crossref_json = (\<lambda>b. None),
      semantic_json = (\<lambda>b. None),
      read_pdf = (\<lambda>p. None),
      write_file = (\<lambda>p c. Written)\<rparr>"

text \<open>
  A small web: a page with a title and no abstract candidate, a page whose only candidate
  is a short \<open>meta\<close> description, a page with a long one, an arXiv abstract page, and a
  Crossref API that knows an abstract for every query.
\<close>

definition paper_page :: "node list" where
  "paper_page =
     [Element ''html'' []
        [Element ''head'' [] [Element ''title'' [] [TextNode ''Paper A'']],
         Element ''body'' [] [Element ''p'' [] [TextNode ''Full text.'']]]]"

definition short_page :: "node list" where
  "short_page =
     [Element ''html'' []
        [Element ''head'' []
           [Element ''meta'' [(''name'', ''description''), (''content'', ''A study of X.'')] []],
         Element ''body'' [] [Element ''p'' [] [TextNode ''Full text.'']]]]"

definition long_description :: string where
  "long_description = '' We study X on a large corpus and report what was measured. ''"

definition described_page :: "node list" where
  "described_page =
     [Element ''html'' []
        [Element ''head'' []
           [Element ''title'' [] [TextNode ''Paper B''],
            Element ''meta'' [(''name'', ''description''), (''content'', long_description)] []],
         Element ''body'' [] []]]"

definition arxiv_page :: "node list" where
  "arxiv_page =
     [Element ''html'' []
        [Element ''body'' []
           [Element ''h1'' [(''class'', ''title mathjax'')]
              [Element ''span'' [(''class'', ''descriptor'')] [TextNode ''Title:''],
               TextNode ''Deep Nets''],
            Element ''blockquote'' [(''class'', ''abstract mathjax'')]
              [Element ''span'' [(''class'', ''descriptor'')] [TextNode ''Abstract:''],
               TextNode '' We train deep nets.'']]]]"

definition api_abstract :: string where
  "api_abstract = ''An abstract that the bibliographic API holds for this work.''"

definition web :: env where
  "web =
     \<lparr>http_get = (\<lambda>h u.
         if h \<and> u = ''http://example.com/paper'' then Response 200 ''paper''
         else if h \<and> u = ''http://example.com/short'' then Response 200 ''short''
         else if h \<and> u = ''http://example.com/described'' then Response 200 ''described''
         else if u = ''https://arxiv.org/abs/2301.01234'' then Response 200 ''arxiv''
         else if prefix ''https://api.crossref.org/works?query='' u then Response 200 ''crossref''
         else RequestError),
      parse_html = (\<lambda>b.
         if b = ''paper'' then Some paper_page
         else if b = ''short'' then Some short_page
         else if b = ''described'' then Some described_page
         else if b = ''arxiv'' then Some arxiv_page
         else Some []),
      url_quote = (\<lambda>s. s),
      crossref_json = (\<lambda>b. Some [[(''abstract'', api_abstract)]]),
      semantic_json = (\<lambda>b. Some []),
      read_pdf = (\<lambda>p. None),
      write_file = (\<lambda>p c. Written)\<rparr>"

text \<open>
  A run whose metadata mapping has one record, with a source of 120 and an abstract of
  600 characters.
\<close>

definition long_record :: run where
  "long_record =
     \<lparr>metadata = [(replicate 120 CHR ''u'',
                    [(''title'', ''T''), (''abstract'', replicate 600 CHR ''a'')])],
      printed = [], files = []\<rparr>"

text \<open>The text of the worked example of the reference extractor.\<close>

definition example_text :: string where
  "example_text =
     ''See https://example.com/paper.pdf, and DOI 10.1000/xyz123 for details. ''
     @ ''arXiv:2301.01234 is also relevant.''"

text \<open>The literal prefixes of the three link patterns.\<close>

definition link_prefixes :: "string list" where
  "link_prefixes = [''https://'', ''http://'', ''www.'', ''doi.org/'']"

section \<open>Notions used in the statements\<close>

text \<open>A metadata record has both keys.\<close>

definition has_keys :: "info \<Rightarrow> bool" where
  "has_keys i = (map_of i ''title'' \<noteq> None \<and> map_of i ''abstract'' \<noteq> None)"

text \<open>The references that one of the three branches of the dispatch takes.\<close>

definition url_shaped :: "string \<Rightarrow> bool" where
  "url_shaped r =
     (startswith r ''arXiv:'' \<or> contains ''arxiv.org'' r \<or> startswith r ''http''
      \<or> startswith r ''doi.org'' \<or> startswith r ''www.'')"

text \<open>The record stored for a reference that is the first of its batch.\<close>

definition stored_alone :: "env \<Rightarrow> string \<Rightarrow> string \<Rightarrow> info" where
  "stored_alone e text r =
     (case snd (try_source e text r unbound) of Inr i \<Rightarrow> i | Inl x \<Rightarrow> failed_info)"

text \<open>
  The strings by which the stages report that they have no abstract, and what counts as
  no usable result: the empty string or one of them.
\<close>

definition failure_sentinels :: "string list" where
  "failure_sentinels =
     [''Abstract extraction failed'', ''Abstract not available'', ''Abstract not found'',
      ''Abstract retrieval error'', ''Abstract not found through APIs'',
      ''No abstract found in text'']"

definition no_result :: "string \<Rightarrow> bool" where
  "no_result a = (a = [] \<or> a \<in> set failure_sentinels)"

section \<open>Properties of the reference extractor\<close>

lemma findall_elem:
  "x \<in> set (findall m t) \<Longrightarrow> \<exists>s n. m s = Some n \<and> x = take n s"
  by (induction m t rule: findall.induct) (auto split: option.splits)

lemma take_prefix_len: "prefix p s \<Longrightarrow> take (length p) s = p"
  by (auto simp: prefix_def)

lemma take_prefix_add: "take (length p + k) (p @ r) = p @ take k r"
  by simp

lemma then_nonspace_Some:
  assumes "then_nonspace k s = Some n"
  shows "\<exists>w. take n s = take k s @ w \<and> w \<noteq> [] \<and> (\<forall>c\<in>set w. \<not> is_space c)"
proof -
  let ?w = "takeWhile (\<lambda>c. \<not> is_space c) (drop k s)"
  from assms have n: "n = k + length ?w" and w: "?w \<noteq> []"
    by (auto simp: then_nonspace_def Let_def split: if_splits)
  have "take n s = take k s @ take (length ?w) (drop k s)"
    unfolding n by (rule take_add)
  also have "take (length ?w) (drop k s) = ?w"
    by (rule takeWhile_eq_take [symmetric])
  finally have "take n s = take k s @ ?w" .
  moreover have "\<forall>c\<in>set ?w. \<not> is_space c"
    by (auto dest: set_takeWhileD)
  ultimately show ?thesis using w by blast
qed

lemma link_match_shape:
  assumes "m \<in> {match_http, match_www, match_doi_link}" and "m s = Some n"
  shows "\<exists>p w. take n s = p @ w \<and> p \<in> set link_prefixes \<and> w \<noteq> [] \<and> (\<forall>c\<in>set w. \<not> is_space c)"
proof -
  have "\<exists>p. prefix p s \<and> p \<in> set link_prefixes \<and> then_nonspace (length p) s = Some n"
  proof -
    consider "prefix ''https://'' s" "then_nonspace 8 s = Some n"
      | "prefix ''http://'' s" "then_nonspace 7 s = Some n"
      | "prefix ''www.'' s" "then_nonspace 4 s = Some n"
      | "prefix ''doi.org/'' s" "then_nonspace 8 s = Some n"
      using assms
      by (auto simp: match_http_def match_www_def match_doi_link_def split: if_splits)
    then show ?thesis
    proof cases
      case 1 then show ?thesis
        by (intro exI [of _ "''https://''"]) (simp add: link_prefixes_def eval_nat_numeral)
    next
      case 2 then show ?thesis
        by (intro exI [of _ "''http://''"]) (simp add: link_prefixes_def eval_nat_numeral)
    next
      case 3 then show ?thesis
        by (intro exI [of _ "''www.''"]) (simp add: link_prefixes_def eval_nat_numeral)
    next
      case 4 then show ?thesis
        by (intro exI [of _ "''doi.org/''"]) (simp add: link_prefixes_def eval_nat_numeral)
    qed
  qed
  then obtain p where p: "prefix p s" "p \<in> set link_prefixes"
    and t: "then_nonspace (length p) s = Some n"
    by blast
  from then_nonspace_Some [OF t] p show ?thesis
    by (auto simp: take_prefix_len)
qed


lemma strip_chars_id:
  assumes "\<forall>c\<in>set x. \<not> P c"
  shows "strip_chars P x = x"
proof -
  have "dropWhile P x = x" using assms by (simp add: dropWhile_id)
  moreover have "dropWhile P (rev x) = rev x" by (rule dropWhile_id) (use assms in auto)
  ultimately show ?thesis by (simp add: strip_chars_def)
qed

lemma set_strip_chars: "set (strip_chars P x) \<subseteq> set x"
proof -
  have "set (dropWhile P (rev (dropWhile P x))) \<subseteq> set (rev (dropWhile P x))"
    by (auto dest: set_dropWhileD)
  also have "\<dots> \<subseteq> set x" by (auto dest: set_dropWhileD)
  finally show ?thesis by (simp add: strip_chars_def)
qed

lemma strip_chars_last:
  assumes "strip_chars P x \<noteq> []"
  shows "\<not> P (last (strip_chars P x))"
proof -
  let ?d = "dropWhile P (rev (dropWhile P x))"
  from assms have "?d \<noteq> []" by (simp add: strip_chars_def)
  then have "\<not> P (hd ?d)" by (rule hd_dropWhile)
  moreover have "last (rev ?d) = hd ?d" using \<open>?d \<noteq> []\<close> by (simp add: last_rev)
  ultimately show ?thesis by (simp add: strip_chars_def)
qed

lemma strip_chars_nonempty:
  assumes "x \<noteq> []" and "\<not> P (hd x)"
  shows "strip_chars P x \<noteq> []"
proof -
  from assms have "dropWhile P x = x" by (simp add: dropWhile_eq_self_iff)
  moreover have "hd x \<in> set (rev x)" using assms by simp
  then have "dropWhile P (rev x) \<noteq> []" using assms by (auto simp: dropWhile_eq_Nil_conv)
  ultimately show ?thesis by (simp add: strip_chars_def)
qed

lemma digit_not_space: "is_digit c \<Longrightarrow> \<not> is_space c"
  by (auto simp: is_digit_def is_space_def Let_def)

lemma doi_char_not_space: "doi_char c \<Longrightarrow> \<not> is_space c"
  by (auto simp: doi_char_def is_digit_def is_upper_def is_lower_def is_space_def Let_def)

lemma link_entry:
  assumes "m \<in> {match_http, match_www, match_doi_link}" and "x \<in> set (findall m t)"
  shows "link_strip x \<noteq> [] \<and> last (link_strip x) \<notin> set '',.()[]''
         \<and> (\<forall>c\<in>set (link_strip x). \<not> is_space c)"
proof -
  from findall_elem [OF assms(2)] obtain s n where "m s = Some n" "x = take n s" by blast
  with link_match_shape [OF assms(1)] obtain p w where
    x: "x = p @ w" and p: "p \<in> set link_prefixes" and w: "\<forall>c\<in>set w. \<not> is_space c"
    by metis
  from p have hd: "x \<noteq> [] \<and> hd x \<notin> set '',.()[]''" and ps: "\<forall>c\<in>set p. \<not> is_space c"
    unfolding x by (auto simp: link_prefixes_def is_space_def)
  from hd have ne: "link_strip x \<noteq> []"
    unfolding link_strip_def by (intro strip_chars_nonempty) auto
  then have "last (link_strip x) \<notin> set '',.()[]''"
    unfolding link_strip_def by (rule strip_chars_last)
  moreover have "\<forall>c\<in>set (link_strip x). \<not> is_space c"
    using set_strip_chars [of _ x] ps w unfolding link_strip_def x by auto
  ultimately show ?thesis using ne by blast
qed

lemma match_doi_shape:
  assumes "match_doi s = Some n"
  shows "\<exists>ds cs. take n s = ''10.'' @ ds @ ''/'' @ cs
           \<and> 4 \<le> length ds \<and> length ds \<le> 9 \<and> (\<forall>c\<in>set ds. is_digit c)
           \<and> cs \<noteq> [] \<and> (\<forall>c\<in>set cs. doi_char c)"
proof -
  from assms obtain r where s: "s = ''10.'' @ r"
    by (auto simp: match_doi_def prefix_def split: if_splits)
  let ?ds = "takeWhile is_digit r"
  from assms s obtain r2 where r': "drop (length ?ds) r = CHR ''/'' # r2"
    and d: "4 \<le> length ?ds" "length ?ds \<le> 9"
    by (auto simp: match_doi_def Let_def prefix_def split: if_splits)
  let ?cs = "takeWhile doi_char r2"
  from assms s r' d have n: "n = 3 + length ?ds + 1 + length ?cs" and cs: "?cs \<noteq> []"
    by (auto simp: match_doi_def Let_def split: if_splits)
  have "r = take (length ?ds) r @ drop (length ?ds) r" by simp
  also have "take (length ?ds) r = ?ds" by (rule takeWhile_eq_take [symmetric])
  finally have r: "r = ?ds @ CHR ''/'' # r2" using r' by simp
  have "take (length ?cs) r2 = ?cs" by (rule takeWhile_eq_take [symmetric])
  then have "take (length ?ds + 1 + length ?cs) (?ds @ CHR ''/'' # r2) = ?ds @ CHR ''/'' # ?cs"
    by simp
  then have "take (length ?ds + 1 + length ?cs) r = ?ds @ CHR ''/'' # ?cs"
    using r by simp
  moreover have n': "n = length ''10.'' + (length ?ds + 1 + length ?cs)"
    using n by simp
  have "take n s = ''10.'' @ take (length ?ds + 1 + length ?cs) r"
    unfolding n' s by (rule take_prefix_add)
  ultimately have "take n s = ''10.'' @ ?ds @ ''/'' @ ?cs"
    by simp
  moreover have "\<forall>c\<in>set ?ds. is_digit c" by (auto dest: set_takeWhileD)
  moreover have "\<forall>c\<in>set ?cs. doi_char c" by (auto dest: set_takeWhileD)
  ultimately show ?thesis using d cs by blast
qed

lemma match_arxiv_shape:
  assumes "match_arxiv s = Some n"
  shows "\<forall>c\<in>set (take n s). \<not> is_space c"
proof -
  from assms obtain r where s: "s = ''arXiv:'' @ r"
    by (auto simp: match_arxiv_def prefix_def split: if_splits)
  let ?a = "take 4 r"
  let ?b = "takeWhile is_digit (take 5 (drop 5 r))"
  from assms s have a: "4 \<le> length (takeWhile is_digit ?a)" and dot: "prefix ''.'' (drop 4 r)"
    and n: "n = 6 + 4 + 1 + length ?b"
    by (auto simp: match_arxiv_def Let_def split: if_splits)
  have "length (takeWhile is_digit ?a) \<le> length ?a" by (rule length_takeWhile_le)
  with a have la: "length ?a = 4" and "length (takeWhile is_digit ?a) = length ?a" by auto
  then have "takeWhile is_digit ?a = ?a"
    by (metis takeWhile_eq_take take_all order_refl)
  then have da: "\<forall>c\<in>set ?a. is_digit c" by (metis set_takeWhileD)
  from dot obtain r2 where r4: "drop 4 r = CHR ''.'' # r2" by (auto simp: prefix_def)
  have "r = ?a @ drop 4 r" by simp
  then have r: "r = ?a @ CHR ''.'' # r2" using r4 by simp
  have "drop 5 r = drop 1 (drop 4 r)" by simp
  then have r5: "drop 5 r = r2" using r4 by simp
  have "take (length ?b) (take 5 r2) = ?b"
    using r5 by (metis takeWhile_eq_take)
  moreover have "length ?b \<le> 5"
    by (rule order_trans [OF length_takeWhile_le]) simp
  ultimately have tb: "take (length ?b) r2 = ?b" by (simp add: min_def)
  have "take (4 + 1 + length ?b) (?a @ CHR ''.'' # r2) = ?a @ CHR ''.'' # take (length ?b) r2"
    using la by simp
  then have "take (4 + 1 + length ?b) r = ?a @ CHR ''.'' # ?b"
    using r tb by simp
  moreover have n': "n = length ''arXiv:'' + (4 + 1 + length ?b)"
    using n by simp
  have "take n s = ''arXiv:'' @ take (4 + 1 + length ?b) r"
    unfolding n' s by (rule take_prefix_add)
  ultimately have "take n s = ''arXiv:'' @ ?a @ ''.'' @ ?b"
    by simp
  then have "set (take n s) = (set ''arXiv:'' \<union> {CHR ''.''}) \<union> set ?a \<union> set ?b"
    by auto
  moreover have "\<forall>c\<in>set ''arXiv:'' \<union> {CHR ''.''}. \<not> is_space c"
    by (simp add: is_space_def)
  moreover have "\<forall>c\<in>set ?b. is_digit c" by (auto dest: set_takeWhileD)
  ultimately show ?thesis
    using da digit_not_space by blast
qed

lemma strip_id: "\<forall>c\<in>set x. \<not> is_space c \<Longrightarrow> strip x = x"
  unfolding strip_def by (rule strip_chars_id)

lemma doi_entry:
  assumes "x \<in> set (findall match_doi t)"
  shows "\<exists>ds cs. x = ''10.'' @ ds @ ''/'' @ cs
           \<and> 4 \<le> length ds \<and> length ds \<le> 9 \<and> (\<forall>c\<in>set ds. is_digit c)
           \<and> cs \<noteq> [] \<and> (\<forall>c\<in>set cs. doi_char c)"
proof -
  from findall_elem [OF assms] obtain s n where "match_doi s = Some n" "x = take n s"
    by blast
  with match_doi_shape show ?thesis by metis
qed

lemma doi_entry_no_space:
  assumes "x \<in> set (findall match_doi t)"
  shows "\<forall>c\<in>set x. \<not> is_space c"
proof -
  from doi_entry [OF assms] obtain ds cs where x: "x = ''10.'' @ ds @ ''/'' @ cs"
    and ds: "\<forall>c\<in>set ds. is_digit c" and cs: "\<forall>c\<in>set cs. doi_char c"
    by blast
  have "set x = (set ''10.'' \<union> set ''/'') \<union> set ds \<union> set cs"
    unfolding x by auto
  moreover have "\<forall>c\<in>set ''10.'' \<union> set ''/''. \<not> is_space c"
    by (simp add: is_space_def)
  ultimately show ?thesis
    using ds cs digit_not_space doi_char_not_space by blast
qed

lemma arxiv_entry_no_space:
  assumes "x \<in> set (findall match_arxiv t)"
  shows "\<forall>c\<in>set x. \<not> is_space c"
proof -
  from findall_elem [OF assms] obtain s n where "match_arxiv s = Some n" "x = take n s"
    by blast
  with match_arxiv_shape show ?thesis by blast
qed

lemma links_entry:
  assumes "l \<in> set (map link_strip
             (findall match_http t @ findall match_www t @ findall match_doi_link t))"
  shows "l \<noteq> [] \<and> last l \<notin> set '',.()[]'' \<and> (\<forall>c\<in>set l. \<not> is_space c)"
proof -
  from assms obtain m x where "m \<in> {match_http, match_www, match_doi_link}"
    and "x \<in> set (findall m t)" and l: "l = link_strip x"
    by auto
  then show ?thesis unfolding l by (intro link_entry)
qed

text \<open>
  C5. On the text \<open>See https://example.com/paper.pdf, and DOI 10.1000/xyz123 for details.
  arXiv:2301.01234 is also relevant.\<close> the extractor returns the one link
  \<open>https://example.com/paper.pdf\<close> (the comma behind it stripped), the one DOI
  \<open>10.1000/xyz123\<close> and the one arXiv identifier \<open>arXiv:2301.01234\<close>.
\<close>

theorem extract_example:
  "extract_links_and_dois example_text =
     ([''https://example.com/paper.pdf''], [''10.1000/xyz123''], [''arXiv:2301.01234''])"
  by (simp add: example_text_def extract_links_and_dois_def match_http_def match_www_def
      match_doi_link_def match_doi_def match_arxiv_def then_nonspace_def is_space_def
      is_digit_def doi_char_def is_upper_def is_lower_def list_set_def link_strip_def
      strip_chars_def)

text \<open>
  C6. For every text, each of the three lists that the extractor returns has no duplicate;
  no entry has leading or trailing whitespace (stripping whitespace leaves it as it is);
  every link is non-empty and does not end with one of \<open>, . ( ) [ ]\<close>; and every DOI is
  \<open>10.\<close>, then 4 to 9 digits, a slash, and one or more characters of the class
  \<open>[-._;()/:A-Za-z0-9]\<close>.
\<close>

theorem extract_well_formed:
  assumes "extract_links_and_dois text = (links, dois, arxiv_ids)"
  shows "distinct links \<and> distinct dois \<and> distinct arxiv_ids
     \<and> (\<forall>x\<in>set (links @ dois @ arxiv_ids). strip x = x)
     \<and> (\<forall>l\<in>set links. l \<noteq> [] \<and> last l \<notin> set '',.()[]'')
     \<and> (\<forall>d\<in>set dois. \<exists>ds cs. d = ''10.'' @ ds @ ''/'' @ cs
            \<and> 4 \<le> length ds \<and> length ds \<le> 9 \<and> (\<forall>c\<in>set ds. is_digit c)
            \<and> cs \<noteq> [] \<and> (\<forall>c\<in>set cs. doi_char c))"
proof -
  from assms have links: "links = remdups (map link_strip
      (findall match_http text @ findall match_www text @ findall match_doi_link text))"
    and dois: "dois = remdups (findall match_doi text)"
    and arxiv: "arxiv_ids = remdups (findall match_arxiv text)"
    by (simp_all add: extract_links_and_dois_def list_set_def Let_def)
  have dist: "distinct links \<and> distinct dois \<and> distinct arxiv_ids"
    by (simp add: links dois arxiv)
  have lnk: "\<forall>l\<in>set links. l \<noteq> [] \<and> last l \<notin> set '',.()[]'' \<and> strip l = l"
    using links_entry [of _ "text"] strip_id unfolding links set_remdups by blast
  have doi: "\<forall>x\<in>set dois. strip x = x"
    using doi_entry_no_space [of _ "text"] strip_id unfolding dois set_remdups by blast
  have arx: "\<forall>x\<in>set arxiv_ids. strip x = x"
    using arxiv_entry_no_space [of _ "text"] strip_id unfolding arxiv set_remdups by blast
  have shape: "\<forall>d\<in>set dois. \<exists>ds cs. d = ''10.'' @ ds @ ''/'' @ cs
            \<and> 4 \<le> length ds \<and> length ds \<le> 9 \<and> (\<forall>c\<in>set ds. is_digit c)
            \<and> cs \<noteq> [] \<and> (\<forall>c\<in>set cs. doi_char c)"
    using doi_entry [of _ "text"] unfolding dois set_remdups by blast
  from lnk doi arx have "\<forall>x\<in>set (links @ dois @ arxiv_ids). strip x = x"
    by auto
  with dist lnk shape show ?thesis by blast
qed

theorem extract_well_formed_witness:
  "extract_links_and_dois ''(www.a.org/x). DOI 10.1234/ab.c or 10.1234/ab.c''
     = ([''www.a.org/x''], [''10.1234/ab.c''], [])
   \<and> distinct [''www.a.org/x''] \<and> distinct [''10.1234/ab.c'']
   \<and> strip ''www.a.org/x'' = ''www.a.org/x'' \<and> strip ''10.1234/ab.c'' = ''10.1234/ab.c''
   \<and> last ''www.a.org/x'' \<notin> set '',.()[]''
   \<and> (\<exists>ds cs. ''10.1234/ab.c'' = ''10.'' @ ds @ ''/'' @ cs
          \<and> 4 \<le> length ds \<and> length ds \<le> 9 \<and> (\<forall>c\<in>set ds. is_digit c)
          \<and> cs \<noteq> [] \<and> (\<forall>c\<in>set cs. doi_char c))"
proof -
  have h: "extract_links_and_dois ''(www.a.org/x). DOI 10.1234/ab.c or 10.1234/ab.c''
     = ([''www.a.org/x''], [''10.1234/ab.c''], [])"
    by (simp add: extract_links_and_dois_def match_http_def match_www_def
        match_doi_link_def match_doi_def match_arxiv_def then_nonspace_def is_space_def
        is_digit_def doi_char_def is_upper_def is_lower_def list_set_def link_strip_def
        strip_chars_def)
  from extract_well_formed [OF h] h show ?thesis
    by simp
qed

section \<open>Properties of the processing loop\<close>

lemma first_abstract_nonempty: "first_abstract ws = Some a \<Longrightarrow> a \<noteq> []"
  by (auto simp: first_abstract_def split: list.splits option.splits if_splits)

lemma api_lookup_nonempty: "api_lookup e d u = Some (Some a) \<Longrightarrow> a \<noteq> []"
  by (auto simp: api_lookup_def split: http_result.splits if_splits
      dest: first_abstract_nonempty)

lemma api_never_empty: "extract_abstract_alternative e t \<noteq> []"
  unfolding extract_abstract_alternative_def
  by (auto split: option.splits dest: api_lookup_nonempty)

lemma try_source_keys: "snd (try_source e text r l) = Inr i \<Longrightarrow> has_keys i"
  by (auto simp: try_source_def has_keys_def Let_def split: option.splits if_splits)

lemma failed_info_keys: "has_keys failed_info"
  by (simp add: failed_info_def has_keys_def)

lemma set_update_subset: "set (AList.update k v al) \<subseteq> insert (k, v) (set al)"
  by (induction al) auto

lemma process_source_keys:
  assumes "\<forall>(s, i)\<in>set (snd st). has_keys i"
  shows "\<forall>(s, i)\<in>set (snd (process_source e text st r)). has_keys i"
proof -
  obtain l x where t: "try_source e text r (fst st) = (l, x)" by (cases "try_source e text r (fst st)")
  show ?thesis
  proof (cases x)
    case (Inl a)
    with t have "snd (process_source e text st r) = AList.update r failed_info (snd st)"
      by (simp add: process_source_def)
    with assms failed_info_keys set_update_subset [of r failed_info "snd st"] show ?thesis
      by auto
  next
    case (Inr i)
    with t have "snd (process_source e text st r) = AList.update r i (snd st)"
      by (simp add: process_source_def)
    moreover from t Inr have "has_keys i" using try_source_keys [of e "text" r "fst st" i] by simp
    ultimately show ?thesis
      using assms set_update_subset [of r i "snd st"] by auto
  qed
qed

lemma process_source_dom:
  "fst ` set (snd (process_source e text st r)) = insert r (fst ` set (snd st))"
  by (auto simp: process_source_def dom_update split: prod.splits sum.splits)

lemma fold_keys:
  "\<forall>(s, i)\<in>set (snd st). has_keys i \<Longrightarrow>
   \<forall>(s, i)\<in>set (snd (foldl (process_source e text) st xs)). has_keys i"
proof (induction xs arbitrary: st)
  case Nil
  then show ?case by simp
next
  case (Cons x xs)
  have "\<forall>(s, i)\<in>set (snd (process_source e text st x)). has_keys i"
    using Cons.prems by (rule process_source_keys)
  then have "\<forall>(s, i)\<in>set (snd (foldl (process_source e text) (process_source e text st x) xs)). has_keys i"
    by (rule Cons.IH)
  then show ?case by simp
qed

lemma fold_dom:
  "fst ` set (snd (foldl (process_source e text) st xs)) = fst ` set (snd st) \<union> set xs"
  by (induction xs arbitrary: st) (auto simp: process_source_dom)

lemma url_shaped_try:
  assumes "url_shaped r"
  shows "snd (try_source e text r l) = Inr (stored_alone e text r)"
  using assms
  by (auto simp: url_shaped_def stored_alone_def try_source_def dispatch_def Let_def unbound_def)

lemma process_source_at:
  "map_of (snd (process_source e text st r)) r =
     Some (case snd (try_source e text r (fst st)) of Inr i \<Rightarrow> i | Inl x \<Rightarrow> failed_info)"
  by (auto simp: process_source_def update_conv' split: prod.splits sum.splits)

lemma process_source_other:
  "r \<noteq> x \<Longrightarrow> map_of (snd (process_source e text st x)) r = map_of (snd st) r"
  by (auto simp: process_source_def update_conv' split: prod.splits sum.splits)

lemma fold_url_shaped:
  assumes "url_shaped r"
  shows "r \<in> set xs \<or> map_of (snd st) r = Some (stored_alone e text r) \<Longrightarrow>
         map_of (snd (foldl (process_source e text) st xs)) r = Some (stored_alone e text r)"
proof (induction xs arbitrary: st)
  case Nil
  then show ?case by simp
next
  case (Cons x xs)
  show ?case
  proof (cases "x = r")
    case True
    have "map_of (snd (process_source e text st r)) r = Some (stored_alone e text r)"
      by (simp add: process_source_at url_shaped_try [OF assms])
    with Cons.IH [of "process_source e text st x"] True show ?thesis by simp
  next
    case False
    with Cons.prems have "r \<in> set xs \<or> map_of (snd (process_source e text st x)) r = Some (stored_alone e text r)"
      by (auto simp: process_source_other)
    with Cons.IH [of "process_source e text st x"] show ?thesis by simp
  qed
qed

lemma fold_has_record:
  assumes "r \<in> set xs"
  shows "map_of (snd (foldl (process_source e text) st xs)) r \<noteq> None"
proof -
  from assms have "r \<in> fst ` set (snd (foldl (process_source e text) st xs))"
    by (simp add: fold_dom)
  then show ?thesis by (simp add: map_of_eq_None_iff)
qed

text \<open>
  C4. After \<open>process_links_and_dois\<close>, the metadata mapping has a record for every
  reference of the links, the DOIs and the arXiv identifiers, and every record of the
  mapping binds both \<open>title\<close> and \<open>abstract\<close> to a string, whatever the environment
  answers (the mapping it starts from, empty in the program, having only such records).
\<close>

theorem metadata_complete:
  assumes "\<forall>(s, i)\<in>set md. has_keys i"
  shows "(\<forall>r\<in>set (links @ dois @ arxiv_ids).
            map_of (process_links_and_dois e text links dois arxiv_ids md) r \<noteq> None)
       \<and> (\<forall>(s, i)\<in>set (process_links_and_dois e text links dois arxiv_ids md).
            \<exists>t a. map_of i ''title'' = Some t \<and> map_of i ''abstract'' = Some a)"
proof -
  have "\<forall>(s, i)\<in>set (snd (unbound, md)). has_keys i"
    using assms by simp
  then have "\<forall>(s, i)\<in>set (process_links_and_dois e text links dois arxiv_ids md). has_keys i"
    unfolding process_links_and_dois_def by (rule fold_keys)
  then have "\<forall>(s, i)\<in>set (process_links_and_dois e text links dois arxiv_ids md).
               \<exists>t a. map_of i ''title'' = Some t \<and> map_of i ''abstract'' = Some a"
    by (auto simp: has_keys_def)
  moreover have "\<forall>r\<in>set (links @ dois @ arxiv_ids).
      map_of (process_links_and_dois e text links dois arxiv_ids md) r \<noteq> None"
    unfolding process_links_and_dois_def using fold_has_record by blast
  ultimately show ?thesis by blast
qed

theorem metadata_complete_witness:
  "list_all
     (\<lambda>r. map_of (process_links_and_dois offline [] [''http://example.com/paper'']
                      [''10.1000/xyz123''] [''arXiv:2301.01234''] []) r \<noteq> None)
     ([''http://example.com/paper''] @ [''10.1000/xyz123''] @ [''arXiv:2301.01234''])
   \<and> list_all
     (\<lambda>(s, i). \<exists>t a. map_of i ''title'' = Some t \<and> map_of i ''abstract'' = Some a)
     (process_links_and_dois offline [] [''http://example.com/paper'']
        [''10.1000/xyz123''] [''arXiv:2301.01234''] [])"
proof -
  have h: "\<forall>(s, i)\<in>set ([] :: metadata). has_keys i" by simp
  show ?thesis
    unfolding list_all_iff by (rule metadata_complete [OF h])
qed

text \<open>
  C2, as the claim states it, fails. With no network every stage fails for the reference
  \<open>http://example.com/paper\<close>: the scrape and the API lookup raise inside their own
  handlers and the empty document has no abstract. The record stored has the title
  \<open>Unknown Title\<close>, but its abstract is the sentinel of the scraper,
  \<open>Abstract extraction failed\<close>, not \<open>Failed to get Abstract\<close>.
\<close>

theorem all_stages_fail_counterexample:
  "extract_abstract_from_url offline ''http://example.com/paper'' = ''Abstract extraction failed''
   \<and> extract_abstract_alternative offline ''Unknown Title'' = ''Abstract extraction failed''
   \<and> extract_abstract_from_text [] = ''No abstract found in text''
   \<and> map_of (process_links_and_dois offline [] [''http://example.com/paper''] [] [] [])
        ''http://example.com/paper''
       = Some [(''title'', ''Unknown Title''), (''abstract'', ''Abstract extraction failed'')]
   \<and> info_abstract [(''title'', ''Unknown Title''), (''abstract'', ''Abstract extraction failed'')]
       \<noteq> ''Failed to get Abstract''"
  by code_simp

lemma dispatch_url_shaped:
  assumes "url_shaped r"
  shows "\<exists>t a. l_title (dispatch e r l) = Some t \<and> l_abstract (dispatch e r l) = Some a
           \<and> l_title (dispatch e r unbound) = Some t
           \<and> l_abstract (dispatch e r unbound) = Some a
           \<and> (startswith r ''arXiv:'' \<or> contains ''arxiv.org'' r
                \<or> t = extract_title_from_url e r)"
  using assms by (auto simp: url_shaped_def dispatch_def Let_def unbound_def)

lemma stored_alone_failed:
  assumes shaped: "url_shaped r"
    and a1: "l_abstract (dispatch e r unbound) = Some a1" and n1: "no_result a1"
    and n2: "no_result (extract_abstract_alternative e (extract_title_from_url e r))"
  shows "\<exists>t a. stored_alone e text r = [(''title'', t), (''abstract'', a)]
           \<and> a \<in> set failure_sentinels
           \<and> (t = extract_title_from_url e r \<or> l_title (dispatch e r unbound) = Some t)"
proof -
  from dispatch_url_shaped [OF shaped, of e unbound] obtain t1 where
    t1: "l_title (dispatch e r unbound) = Some t1"
    by blast
  show ?thesis
  proof (cases "a1 = []")
    case True
    let ?t = "extract_title_from_url e r"
    let ?a = "extract_abstract_alternative e ?t"
    have ne: "?a \<noteq> []" by (rule api_never_empty)
    with n2 have "?a \<in> set failure_sentinels" by (simp add: no_result_def)
    moreover have "stored_alone e text r = [(''title'', ?t), (''abstract'', ?a)]"
      using a1 True ne by (simp add: stored_alone_def try_source_def Let_def)
    ultimately show ?thesis by blast
  next
    case False
    with n1 have "a1 \<in> set failure_sentinels" by (simp add: no_result_def)
    moreover have "stored_alone e text r = [(''title'', t1), (''abstract'', a1)]"
      using a1 t1 False by (simp add: stored_alone_def try_source_def Let_def)
    ultimately show ?thesis using t1 by blast
  qed
qed

lemma title_request_raises:
  assumes "\<not> contains ''arxiv.org'' r" and "\<not> contains ''doi.org'' r"
    and "http_get e True r = RequestError"
  shows "extract_title_from_url e r = ''Unknown Title''"
  using assms by (simp add: extract_title_from_url_def)

text \<open>
  C2, amended. Take any reference that the dispatch resolves (an arXiv identifier, an
  \<open>arxiv.org\<close> URL, or a reference that starts with \<open>http\<close>, \<open>doi.org\<close> or \<open>www.\<close>) and
  for which every stage fails: the first stage, the API lookup and the in-document
  heuristic each give the empty string or a failure sentinel. Stages do not raise, so
  the handler of the loop is not reached and the record is not the handler's: its abstract
  is one of the failure sentinels of the stages, never \<open>Failed to get Abstract\<close>, and
  its title is the one the title stage returned, which is \<open>Unknown Title\<close> when the
  reference is a generic URL whose request raises. Which stage's sentinel is kept is left
  open. Processing goes on: at the end every reference of the batch has a record.
\<close>

theorem stage_failures_recorded:
  assumes "r \<in> set (links @ dois @ arxiv_ids)" and "url_shaped r"
    and "l_abstract (dispatch e r unbound) = Some a1" and "no_result a1"
    and "no_result (extract_abstract_alternative e (extract_title_from_url e r))"
    and "no_result (extract_abstract_from_text text)"
  shows "(\<exists>t a. map_of (process_links_and_dois e text links dois arxiv_ids md) r
                  = Some [(''title'', t), (''abstract'', a)]
            \<and> a \<in> set failure_sentinels \<and> a \<noteq> ''Failed to get Abstract''
            \<and> (t = extract_title_from_url e r \<or> l_title (dispatch e r unbound) = Some t)
            \<and> (\<not> startswith r ''arXiv:'' \<and> \<not> contains ''arxiv.org'' r
                 \<and> \<not> contains ''doi.org'' r \<and> http_get e True r = RequestError
                 \<longrightarrow> t = ''Unknown Title''))
       \<and> (\<forall>s\<in>set (links @ dois @ arxiv_ids).
             map_of (process_links_and_dois e text links dois arxiv_ids md) s \<noteq> None)"
proof -
  have rec: "map_of (process_links_and_dois e text links dois arxiv_ids md) r
          = Some (stored_alone e text r)"
    unfolding process_links_and_dois_def
    using assms(1) by (intro fold_url_shaped [OF assms(2)]) simp
  from stored_alone_failed [OF assms(2) assms(3) assms(4) assms(5), of "text"]
  obtain t a where s: "stored_alone e text r = [(''title'', t), (''abstract'', a)]"
    and a: "a \<in> set failure_sentinels"
    and t: "t = extract_title_from_url e r \<or> l_title (dispatch e r unbound) = Some t"
    by blast
  from a have na: "a \<noteq> ''Failed to get Abstract''"
    by (auto simp: failure_sentinels_def)
  have u: "\<not> startswith r ''arXiv:'' \<and> \<not> contains ''arxiv.org'' r
        \<and> \<not> contains ''doi.org'' r \<and> http_get e True r = RequestError
        \<longrightarrow> t = ''Unknown Title''"
  proof (intro impI, elim conjE)
    assume x: "\<not> startswith r ''arXiv:''" "\<not> contains ''arxiv.org'' r"
      "\<not> contains ''doi.org'' r" "http_get e True r = RequestError"
    from dispatch_url_shaped [OF assms(2), of e unbound] x t
    have "t = extract_title_from_url e r" by auto
    with title_request_raises [OF x(2) x(3) x(4)] show "t = ''Unknown Title''" by simp
  qed
  have every: "\<forall>s\<in>set (links @ dois @ arxiv_ids).
      map_of (process_links_and_dois e text links dois arxiv_ids md) s \<noteq> None"
    unfolding process_links_and_dois_def using fold_has_record by blast
  have "map_of (process_links_and_dois e text links dois arxiv_ids md) r
          = Some [(''title'', t), (''abstract'', a)]"
    using rec s by simp
  with a na t u every show ?thesis
    by (intro conjI exI [of _ t] exI [of _ a])
qed

theorem stage_failures_recorded_witness:
  "(\<exists>t a. map_of (process_links_and_dois offline [] [''http://example.com/paper'']
                    [''10.1000/xyz123''] [''arXiv:2301.01234''] []) ''http://example.com/paper''
                  = Some [(''title'', t), (''abstract'', a)]
            \<and> a \<in> set failure_sentinels \<and> a \<noteq> ''Failed to get Abstract''
            \<and> t = ''Unknown Title'')
   \<and> (\<exists>t a. map_of (process_links_and_dois offline [] [''http://example.com/paper'']
                    [''10.1000/xyz123''] [''arXiv:2301.01234''] []) ''arXiv:2301.01234''
                  = Some [(''title'', t), (''abstract'', a)]
            \<and> a \<in> set failure_sentinels \<and> a \<noteq> ''Failed to get Abstract''
            \<and> (t = ''Unknown Title'' \<or> t = ''Title retrieval error''))
   \<and> map_of (process_links_and_dois offline [] [''http://example.com/paper'']
                    [''10.1000/xyz123''] [''arXiv:2301.01234''] []) ''10.1000/xyz123'' \<noteq> None"
proof -
  let ?batch = "[''http://example.com/paper''] @ [''10.1000/xyz123''] @ [''arXiv:2301.01234'']"
  have g: "http_get offline True ''http://example.com/paper'' = RequestError"
    by (simp add: offline_def)
  have n2: "no_result (extract_abstract_alternative offline t)" for t
    by (simp add: no_result_def failure_sentinels_def extract_abstract_alternative_def
        api_lookup_def offline_def)
  have n3: "no_result (extract_abstract_from_text [])"
    by (simp add: no_result_def failure_sentinels_def extract_abstract_from_text_def
        cleaned_candidate_def abstract_label_match_def)
  have l1: "''http://example.com/paper'' \<in> set ?batch" by simp
  have l2: "url_shaped ''http://example.com/paper''"
    by (simp add: url_shaped_def startswith_def)
  have l3: "l_abstract (dispatch offline ''http://example.com/paper'' unbound)
              = Some ''Abstract extraction failed''"
    by (simp add: dispatch_def startswith_def extract_abstract_from_url_def offline_def)
  have l4: "no_result ''Abstract extraction failed''"
    by (simp add: no_result_def failure_sentinels_def)
  have a1: "''arXiv:2301.01234'' \<in> set ?batch" by simp
  have a2: "url_shaped ''arXiv:2301.01234''"
    by (simp add: url_shaped_def startswith_def)
  have a3: "l_abstract (dispatch offline ''arXiv:2301.01234'' unbound)
              = Some ''Abstract retrieval error''"
    by (simp add: dispatch_def startswith_def extract_abstract_from_arxiv_def offline_def
        arxiv_failed_def Let_def)
  have a4: "no_result ''Abstract retrieval error''"
    by (simp add: no_result_def failure_sentinels_def)
  have d: "''10.1000/xyz123'' \<in> set ?batch" by simp
  have x: "\<not> startswith ''http://example.com/paper'' ''arXiv:''"
    "\<not> contains ''arxiv.org'' ''http://example.com/paper''"
    "\<not> contains ''doi.org'' ''http://example.com/paper''"
    by (simp_all add: startswith_def)
  have y: "extract_title_from_url offline ''arXiv:2301.01234'' = ''Unknown Title''"
    "l_title (dispatch offline ''arXiv:2301.01234'' unbound) = Some ''Title retrieval error''"
    by (simp_all add: extract_title_from_url_def dispatch_def startswith_def
        extract_abstract_from_arxiv_def offline_def arxiv_failed_def Let_def)
  from stage_failures_recorded [OF l1 l2 l3 l4 n2 n3, of "[]"] g x
  have c1: "\<exists>t a. map_of (process_links_and_dois offline [] [''http://example.com/paper'']
                    [''10.1000/xyz123''] [''arXiv:2301.01234''] []) ''http://example.com/paper''
                  = Some [(''title'', t), (''abstract'', a)]
            \<and> a \<in> set failure_sentinels \<and> a \<noteq> ''Failed to get Abstract''
            \<and> t = ''Unknown Title''"
    by blast
  from stage_failures_recorded [OF a1 a2 a3 a4 n2 n3, of "[]"] d
  have c3: "map_of (process_links_and_dois offline [] [''http://example.com/paper'']
                    [''10.1000/xyz123''] [''arXiv:2301.01234''] []) ''10.1000/xyz123'' \<noteq> None"
    by blast
  from stage_failures_recorded [OF a1 a2 a3 a4 n2 n3, of "[]"] y
  have c2: "\<exists>t a. map_of (process_links_and_dois offline [] [''http://example.com/paper'']
                    [''10.1000/xyz123''] [''arXiv:2301.01234''] []) ''arXiv:2301.01234''
                  = Some [(''title'', t), (''abstract'', a)]
            \<and> a \<in> set failure_sentinels \<and> a \<noteq> ''Failed to get Abstract''
            \<and> (t = ''Unknown Title'' \<or> t = ''Title retrieval error'')"
    by (metis option.inject)
  from c1 c2 c3 show ?thesis by (intro conjI)
qed

lemma url_shaped_independent:
  assumes "url_shaped r" and "r \<in> set (links @ dois @ arxiv_ids)"
    and "r \<in> set (links' @ dois' @ arxiv_ids')"
  shows "map_of (process_links_and_dois e text links dois arxiv_ids md) r
           = map_of (process_links_and_dois e text links' dois' arxiv_ids' md') r"
proof -
  have "map_of (process_links_and_dois e text links dois arxiv_ids md) r
          = Some (stored_alone e text r)"
    unfolding process_links_and_dois_def
    using assms(2) by (intro fold_url_shaped [OF assms(1)]) simp
  moreover have "map_of (process_links_and_dois e text links' dois' arxiv_ids' md') r
          = Some (stored_alone e text r)"
    unfolding process_links_and_dois_def
    using assms(3) by (intro fold_url_shaped [OF assms(1)]) simp
  ultimately show ?thesis by simp
qed

text \<open>
  C3 fails on the code, for the very references it names. The bare DOI \<open>10.1000/xyz123\<close>
  takes no branch of the dispatch, so the loop body reads \<open>title\<close> and \<open>abstract\<close> as
  the reference before left them. Behind the link \<open>http://example.com/described\<close> the
  DOI is recorded with the title and the abstract of that page; alone in its batch, the
  locals are unbound, the body raises and the handler records \<open>Failed to get Abstract\<close>.
  (For the references that take a branch the record is the same in every batch:
  \<open>url_shaped_independent\<close>.)
\<close>

theorem stale_locals:
  "map_of (process_links_and_dois web [] [''http://example.com/described''] [''10.1000/xyz123''] [] [])
      ''10.1000/xyz123''
     = Some [(''title'', ''Paper B''),
             (''abstract'', ''We study X on a large corpus and report what was measured.'')]
   \<and> map_of (process_links_and_dois web [] [] [''10.1000/xyz123''] [] []) ''10.1000/xyz123''
     = Some [(''abstract'', ''Failed to get Abstract''), (''title'', ''Unknown Title'')]"
  by code_simp

lemma heuristic_unreachable:
  "try_source e text r l = try_source e text' r l"
  using api_never_empty [of e]
  by (auto simp: try_source_def Let_def split: option.splits)

lemma first_stage_kept:
  assumes "startswith r ''http'' \<or> startswith r ''doi.org'' \<or> startswith r ''www.''"
    and "\<not> startswith r ''arXiv:''" and "\<not> contains ''arxiv.org'' r"
    and "extract_abstract_from_url e r \<noteq> []"
  shows "snd (try_source e text r l)
           = Inr [(''title'', extract_title_from_url e r),
                  (''abstract'', extract_abstract_from_url e r)]"
  using assms by (auto simp: try_source_def dispatch_def Let_def)

text \<open>
  C1 fails on the code. The two later stages are guarded by \<open>if not abstract\<close>, which
  holds for the empty string only, while the scrapers report a failure by a non-empty
  sentinel. The page \<open>http://example.com/paper\<close> answers 200 and has no abstract
  candidate: the scrape yields \<open>Abstract not found\<close>, the bibliographic API, which holds
  an abstract for the title of the page, is not asked, and the sentinel is the abstract
  recorded. (Whatever the scrape returns is kept unless it is empty: \<open>first_stage_kept\<close>;
  and as the API stage never returns the empty string, the document text never reaches
  the record: \<open>heuristic_unreachable\<close>.)
\<close>

theorem sentinel_kept:
  "extract_abstract_from_url web ''http://example.com/paper'' = ''Abstract not found''
   \<and> extract_title_from_url web ''http://example.com/paper'' = ''Paper A''
   \<and> extract_abstract_alternative web ''Paper A''
       = ''An abstract that the bibliographic API holds for this work.''
   \<and> process_links_and_dois web [] [''http://example.com/paper''] [] [] []
       = [(''http://example.com/paper'',
           [(''title'', ''Paper A''), (''abstract'', ''Abstract not found'')])]"
  by code_simp

section \<open>Properties of the scraper\<close>

text \<open>
  C7, as the claim states it, fails. The page \<open>http://example.com/short\<close> answers 200,
  its only abstract candidate is \<open><meta name="description" content="A study of X.">\<close>,
  and the scrape returns \<open>Abstract not found\<close>: a candidate counts only when its text is
  longer than 50 characters, and this one has 13.
\<close>

theorem short_description_counterexample:
  "http_get web True ''http://example.com/short'' = Response 200 ''short''
   \<and> parse_html web ''short'' = Some short_page
   \<and> abstract_candidates short_page
       = [Some (Element ''meta'' [(''name'', ''description''), (''content'', ''A study of X.'')] []),
          None, None]
   \<and> extract_abstract_from_url web ''http://example.com/short'' = ''Abstract not found''
   \<and> extract_abstract_from_url web ''http://example.com/short'' \<noteq> ''A study of X.''"
  by code_simp

text \<open>
  C7, amended. For a 200 response whose only abstract candidate is the
  \<open>meta\<close> description, with the content \<open>c\<close>: the scrape returns \<open>c\<close> trimmed when
  \<open>c\<close> is longer than 50 characters, and \<open>Abstract not found\<close> otherwise.
\<close>

theorem meta_description_scrape:
  assumes "http_get e True url = Response 200 body"
    and "parse_html e body = Some soup"
    and "abstract_candidates soup = [Some t, None, None]"
    and "tag_get t ''content'' (node_text t) = c"
  shows "extract_abstract_from_url e url
           = (if length c > 50 then strip c else ''Abstract not found'')"
  using assms by (auto simp: extract_abstract_from_url_def Let_def)

theorem meta_description_scrape_witness:
  "http_get web True ''http://example.com/described'' = Response 200 ''described''
   \<and> parse_html web ''described'' = Some described_page
   \<and> extract_abstract_from_url web ''http://example.com/described''
       = ''We study X on a large corpus and report what was measured.''"
proof -
  have h1: "http_get web True ''http://example.com/described'' = Response 200 ''described''"
    by (simp add: web_def)
  have h2: "parse_html web ''described'' = Some described_page"
    by (simp add: web_def)
  have h3: "abstract_candidates described_page
      = [Some (Element ''meta'' [(''name'', ''description''), (''content'', long_description)] []),
         None, None]"
    by (simp add: abstract_candidates_def described_page_def)
  have h4: "tag_get (Element ''meta'' [(''name'', ''description''), (''content'', long_description)] [])
        ''content'' (node_text (Element ''meta'' [(''name'', ''description''), (''content'', long_description)] []))
      = long_description"
    by simp
  have "strip long_description = ''We study X on a large corpus and report what was measured.''"
    by (simp add: long_description_def strip_def strip_chars_def is_space_def)
  with meta_description_scrape [OF h1 h2 h3 h4] h1 h2 show ?thesis
    by (simp add: long_description_def)
qed

section \<open>Properties of the reports and of the workflow\<close>

text \<open>
  C8 fails on the code. The HTML table takes its abstract column from the metadata
  record (the first 500 characters, then an ellipsis), but its name column is
  \<open>extract_title_from_url(source)\<close>, resolved again while rendering; the title stored in
  the record is not read. For the reference \<open>arXiv:2301.01234\<close> the record holds the
  title \<open>Deep Nets\<close> of the arXiv page, while the table shows \<open>Unknown Title\<close>: the
  identifier is no URL that can be requested.
\<close>

theorem html_title_resolved_again:
  "process_links_and_dois web [] [] [] [''arXiv:2301.01234''] []
     = [(''arXiv:2301.01234'',
         [(''title'', ''Deep Nets''), (''abstract'', ''We train deep nets.'')])]
   \<and> html_cells web 1 ''arXiv:2301.01234''
        [(''title'', ''Deep Nets''), (''abstract'', ''We train deep nets.'')]
     = [''1'', ''Unknown Title'', ''We train deep nets....'', html_link ''arXiv:2301.01234'']"
  by code_simp

text \<open>
  C9. When reading the input PDF raises, the document text is the empty string, the
  extractor finds no reference in it, the metadata mapping stays empty, no file is
  written, and the run ends by printing its messages: that no PDF and no HTML could be
  generated, then the closing line.
\<close>

theorem unreadable_pdf:
  assumes "read_pdf e input_pdf_path = None"
  shows "extract_text_from_pdf e input_pdf_path = []
       \<and> extract_links_and_dois [] = ([], [], [])
       \<and> metadata (workflow e input_pdf_path output_pdf_path) = []
       \<and> files (workflow e input_pdf_path output_pdf_path) = []
       \<and> printed (workflow e input_pdf_path output_pdf_path)
           = [''No links or abstracts found to generate PDF.'',
              ''No metadata found to generate HTML.'',
              ''Extraction complete. Outputs saved to PDF: '' @ output_pdf_path
                @ '' and HTML: '' @ replace ''.pdf'' ''.html'' output_pdf_path]"
proof -
  have t: "extract_text_from_pdf e input_pdf_path = []"
    using assms by (simp add: extract_text_from_pdf_def)
  have x: "extract_links_and_dois [] = ([], [], [])"
    by (simp add: extract_links_and_dois_def list_set_def)
  have p: "process_links_and_dois e [] [] [] [] [] = []"
    by (simp add: process_links_and_dois_def)
  show ?thesis
    by (simp add: workflow_def t x p init_def create_output_pdf_def create_output_html_def
        say_def)
qed

theorem unreadable_pdf_witness:
  "read_pdf offline ''paper.pdf'' = None
   \<and> metadata (workflow offline ''paper.pdf'' ''extracted_links_and_abstracts.pdf'') = []
   \<and> files (workflow offline ''paper.pdf'' ''extracted_links_and_abstracts.pdf'') = []
   \<and> printed (workflow offline ''paper.pdf'' ''extracted_links_and_abstracts.pdf'')
       = [''No links or abstracts found to generate PDF.'',
          ''No metadata found to generate HTML.'',
          ''Extraction complete. Outputs saved to PDF: extracted_links_and_abstracts.pdf and HTML: extracted_links_and_abstracts.html'']"
proof -
  have h: "read_pdf offline ''paper.pdf'' = None"
    by (simp add: offline_def)
  from unreadable_pdf [OF h, of "''extracted_links_and_abstracts.pdf''"] h show ?thesis
    by simp
qed

lemma rows_nth:
  assumes "k < length md"
  shows "concat (map (\<lambda>(idx, source, i). [pdf_source_cell idx source, pdf_abstract_cell i])
                  (enumerate_from n md)) ! (2 * k)
           = pdf_source_cell (n + k) (fst (md ! k))
       \<and> concat (map (\<lambda>(idx, source, i). [pdf_source_cell idx source, pdf_abstract_cell i])
                  (enumerate_from n md)) ! (2 * k + 1)
           = pdf_abstract_cell (snd (md ! k))"
  using assms
proof (induction md arbitrary: n k)
  case Nil
  then show ?case by simp
next
  case (Cons x xs)
  show ?case
  proof (cases k)
    case 0
    then show ?thesis by (simp add: split_beta)
  next
    case (Suc j)
    with Cons.prems have "j < length xs" by simp
    from Cons.IH [OF this, of "Suc n"] Suc show ?thesis
      by (simp add: split_beta)
  qed
qed

lemma pdf_cells_nth:
  assumes "k < length md" and "md ! k = (source, i)"
  shows "pdf_cells md ! (2 * k + 1) = pdf_source_cell (k + 1) source"
    and "pdf_cells md ! (2 * k + 2) = pdf_abstract_cell i"
  using rows_nth [OF assms(1), of 1] assms(2)
  by (simp_all add: pdf_cells_def)

lemma enumerate_from_eq:
  "enumerate_from n xs = map (\<lambda>k. (n + k, xs ! k)) [0..<length xs]"
proof (induction xs arbitrary: n)
  case Nil
  then show ?case by simp
next
  case (Cons x xs)
  have "map (\<lambda>k. (n + k, (x # xs) ! k)) [0..<length (x # xs)]
          = (n, x) # map (\<lambda>k. (n + k, (x # xs) ! k)) (map Suc [0..<length xs])"
    by (simp add: upt_conv_Cons map_Suc_upt del: upt_Suc)
  also have "\<dots> = (n, x) # map (\<lambda>k. (Suc n + k, xs ! k)) [0..<length xs]"
    by simp
  finally show ?case using Cons.IH [of "Suc n"] by simp
qed

lemma html_content_rows:
  "html_content e md =
     html_header
     @ concat (map (\<lambda>k. html_row e (k + 1) (fst (md ! k)) (snd (md ! k))) [0..<length md])
     @ html_footer"
  by (simp add: html_content_def enumerate_from_eq split_beta o_def)

lemma html_row_eq:
  "html_row e idx source i =
     ''\<newline>                    <tr>\<newline>''
     @ ''                        <td>'' @ str_of_nat idx @ ''</td>\<newline>''
     @ ''                        <td>'' @ extract_title_from_url e source @ ''</td>\<newline>''
     @ ''                        <td>'' @ take 500 (info_abstract i) @ ''...'' @ ''</td>\<newline>''
     @ ''                        <td>'' @ html_link source @ ''</td>\<newline>''
     @ ''                    </tr>\<newline>                ''"
  by (simp add: html_row_def html_cells_def)

lemma create_output_pdf_files:
  "files (create_output_pdf e p r) = files r
   \<or> files (create_output_pdf e p r) = files r @ [(p, PdfDoc (pdf_cells (metadata r)))]"
  by (simp add: create_output_pdf_def say_def split: write_result.splits)

lemma create_output_html_files:
  "files (create_output_html e q r) = files r
   \<or> files (create_output_html e q r) = files r @ [(q, HtmlDoc (html_content e (metadata r)))]"
  by (simp add: create_output_html_def say_def split: write_result.splits)

text \<open>
  C10. For the record at position \<open>k\<close> of the metadata mapping, with \<open>a\<close> the first 500
  characters of its stored abstract and \<open>s\<close> the first 100 characters of its source:
  the PDF report that \<open>create_output_pdf\<close> writes, when it writes one, is the list of cells
  in which the abstract cell of the record is \<open>a\<close>, at most 500 long, followed by the
  ellipsis, and the source cell is \<open>s\<close>, at most 100 long, followed by the ellipsis when
  the source is longer than 100 characters; the HTML report that \<open>create_output_html\<close>
  writes, when it writes one, is the header, one row for each record and the footer, and
  the abstract cell of the row of the record is \<open>a\<close> followed by the ellipsis.
\<close>

theorem truncation:
  assumes "k < length (metadata r)" and "metadata r ! k = (source, i)"
  shows "\<exists>a s. a = take 500 (info_abstract i) \<and> length a \<le> 500
           \<and> s = take 100 source \<and> length s \<le> 100
           \<and> (files (create_output_pdf e p r) = files r
                \<or> files (create_output_pdf e p r)
                    = files r @ [(p, PdfDoc (pdf_cells (metadata r)))])
           \<and> pdf_cells (metadata r) ! (2 * k + 1)
               = str_of_nat (k + 1) @ ''. Source: '' @ s
                 @ (if length source > 100 then ''...'' else [])
           \<and> pdf_cells (metadata r) ! (2 * k + 2) = ''Abstract: '' @ a @ ''...''
           \<and> (files (create_output_html e q r) = files r
                \<or> files (create_output_html e q r)
                    = files r @ [(q, HtmlDoc (html_content e (metadata r)))])
           \<and> html_content e (metadata r)
               = html_header
                 @ concat (map (\<lambda>j. html_row e (j + 1) (fst (metadata r ! j))
                                       (snd (metadata r ! j)))
                             [0..<length (metadata r)])
                 @ html_footer
           \<and> html_row e (k + 1) source i
               = ''\<newline>                    <tr>\<newline>''
                 @ ''                        <td>'' @ str_of_nat (k + 1) @ ''</td>\<newline>''
                 @ ''                        <td>'' @ extract_title_from_url e source
                 @ ''</td>\<newline>''
                 @ ''                        <td>'' @ a @ ''...'' @ ''</td>\<newline>''
                 @ ''                        <td>'' @ html_link source @ ''</td>\<newline>''
                 @ ''                    </tr>\<newline>                ''"
proof -
  have c1: "pdf_cells (metadata r) ! (2 * k + 2)
              = ''Abstract: '' @ take 500 (info_abstract i) @ ''...''"
    using pdf_cells_nth(2) [OF assms] by (simp add: pdf_abstract_cell_def)
  have c2: "pdf_cells (metadata r) ! (2 * k + 1)
      = str_of_nat (k + 1) @ ''. Source: '' @ take 100 source
        @ (if length source > 100 then ''...'' else [])"
    using pdf_cells_nth(1) [OF assms]
    by (simp add: pdf_source_cell_def truncated_source_def)
  have l: "length (take 500 (info_abstract i)) \<le> 500" "length (take 100 source) \<le> 100"
    by simp_all
  show ?thesis
    using c1 c2 l create_output_pdf_files [of e p r] create_output_html_files [of e q r]
      html_content_rows [of e "metadata r"] html_row_eq [of e "k + 1" source i]
    by (intro exI [of _ "take 500 (info_abstract i)"] exI [of _ "take 100 source"] conjI refl)
qed

theorem truncation_witness:
  "(0::nat) < length (metadata long_record)
   \<and> files (create_output_pdf offline ''out.pdf'' long_record)
       = [(''out.pdf'', PdfDoc (pdf_cells (metadata long_record)))]
   \<and> pdf_cells (metadata long_record) ! (2 * 0 + 1)
       = ''1. Source: '' @ replicate 100 CHR ''u'' @ ''...''
   \<and> pdf_cells (metadata long_record) ! (2 * 0 + 2)
       = ''Abstract: '' @ replicate 500 CHR ''a'' @ ''...''
   \<and> files (create_output_html offline ''out.html'' long_record)
       = [(''out.html'', HtmlDoc (html_content offline (metadata long_record)))]
   \<and> html_content offline (metadata long_record)
       = html_header
         @ (''\<newline>                    <tr>\<newline>''
            @ ''                        <td>1</td>\<newline>''
            @ ''                        <td>''
            @ extract_title_from_url offline (replicate 120 CHR ''u'') @ ''</td>\<newline>''
            @ ''                        <td>'' @ replicate 500 CHR ''a'' @ ''...</td>\<newline>''
            @ ''                        <td>'' @ html_link (replicate 120 CHR ''u'')
            @ ''</td>\<newline>''
            @ ''                    </tr>\<newline>                '')
         @ html_footer"
proof -
  have h1: "(0::nat) < length (metadata long_record)"
    by (simp add: long_record_def)
  have h2: "metadata long_record ! 0
      = (replicate 120 CHR ''u'', [(''title'', ''T''), (''abstract'', replicate 600 CHR ''a'')])"
    by (simp add: long_record_def)
  have s: "str_of_nat (Suc 0) = ''1''" by code_simp
  have m: "metadata long_record \<noteq> []" "files long_record = []"
    "length (metadata long_record) = Suc 0"
    by (simp_all add: long_record_def)
  have w: "files (create_output_pdf offline ''out.pdf'' long_record) \<noteq> files long_record"
    "files (create_output_html offline ''out.html'' long_record) \<noteq> files long_record"
    using m by (simp_all add: create_output_pdf_def create_output_html_def offline_def say_def)
  from truncation [OF h1 h2, of offline "''out.pdf''" "''out.html''"] w m h2 show ?thesis
    by (simp add: info_abstract_def s)
qed

end
